theory Spec2Isabelle
  imports Complex_Main "HOL-Library.Word"
begin

section \<open>JavaScript values crossing the Electron boundaries\<close>

text \<open>
  The Electron shell (\<open>src/electron/main.js\<close>, \<open>src/electron/preload.js\<close>) only copies
  values around: it never computes with them. A value is a primitive, a byte buffer, a
  function (known by its identity only: the shell never calls one) or an object literal,
  the latter kept as the ordered list of its properties so that the set of fields of a
  returned object can be stated. Numbers are only copied, so they
  are kept as rationals (integers such as \<open>Date.now()\<close>, fractions such as a display
  scale factor).
\<close>

datatype jsval =
    JUndefined
  | JNull
  | JBool bool
  | JNum rat
  | JStr string
  | JBuffer "8 word list"
  | JFunction nat
  | JObj "(string \<times> jsval) list"

type_synonym jsprops = "(string \<times> jsval) list"

text \<open>Reading a property: a missing property reads as \<open>undefined\<close>.\<close>

definition get_prop :: "jsprops \<Rightarrow> string \<Rightarrow> jsval" where
  "get_prop ps k = (case map_of ps k of None \<Rightarrow> JUndefined | Some v \<Rightarrow> v)"

definition field_names :: "jsprops \<Rightarrow> string list" where
  "field_names ps = map fst ps"

fun is_buffer :: "jsval \<Rightarrow> bool" where
  "is_buffer (JBuffer _) = True"
| "is_buffer _ = False"

text \<open>The names of the properties of an object that hold a byte buffer.\<close>

definition buffer_fields :: "jsprops \<Rightarrow> string list" where
  "buffer_fields ps = map fst (filter (is_buffer \<circ> snd) ps)"

text \<open>What \<open>typeof v === 'function'\<close> tells.\<close>

fun is_function :: "jsval \<Rightarrow> bool" where
  "is_function (JFunction _) = True"
| "is_function _ = False"

datatype js_error = TypeError

section \<open>The preload bridge: \<open>src/electron/preload.js\<close>\<close>

text \<open>
  \<open>ipcRenderer\<close> is an event emitter: for every channel it keeps the list of the
  listeners registered on it, in registration order. \<open>removeAllListeners(channel)\<close>
  empties the list of the channel. \<open>on(channel, listener)\<close> checks that the listener is
  a function and throws a \<open>TypeError\<close> when it is not, leaving the emitter as it was;
  otherwise it appends the listener (the emitter does not look for duplicates).
\<close>

type_synonym emitter = "string \<Rightarrow> jsval list"

definition removeAllListeners :: "string \<Rightarrow> emitter \<Rightarrow> emitter" where
  "removeAllListeners channel ipcRenderer = ipcRenderer(channel := [])"

definition on :: "string \<Rightarrow> jsval \<Rightarrow> emitter \<Rightarrow> js_error + emitter" where
  "on channel listener ipcRenderer =
     (if is_function listener
      then Inr (ipcRenderer(channel := ipcRenderer channel @ [listener]))
      else Inl TypeError)"

definition listenerCount :: "emitter \<Rightarrow> string \<Rightarrow> nat" where
  "listenerCount ipcRenderer channel = length (ipcRenderer channel)"

text \<open>
  \<^verbatim>\<open>
  onScreenCapture: (callback) => {
    ipcRenderer.removeAllListeners('screen-capture');
    ipcRenderer.on('screen-capture', callback);
  },
  onPatternDetected: (callback) => {
    ipcRenderer.removeAllListeners('pattern-detected');
    ipcRenderer.on('pattern-detected', callback);
  },
  removeAllListeners: (channel) => {
    ipcRenderer.removeAllListeners(channel);
  }
  \<close>
  The callback is whatever value the page passes. A call of the bridge yields the error
  it throws, if any, and the emitter as the call leaves it: when \<open>on\<close> throws, the
  listeners of the channel have already been removed.
\<close>

definition onScreenCapture :: "jsval \<Rightarrow> emitter \<Rightarrow> js_error option \<times> emitter" where
  "onScreenCapture callback ipcRenderer =
     (let removed = removeAllListeners ''screen-capture'' ipcRenderer
      in case on ''screen-capture'' callback removed of
           Inl e \<Rightarrow> (Some e, removed)
         | Inr registered \<Rightarrow> (None, registered))"

definition onPatternDetected :: "jsval \<Rightarrow> emitter \<Rightarrow> js_error option \<times> emitter" where
  "onPatternDetected callback ipcRenderer =
     (let removed = removeAllListeners ''pattern-detected'' ipcRenderer
      in case on ''pattern-detected'' callback removed of
           Inl e \<Rightarrow> (Some e, removed)
         | Inr registered \<Rightarrow> (None, registered))"

text \<open>
  The calls the page can make through the bridge that touch the listeners, and a
  session of such calls run in order: a call that throws leaves its error with the page,
  and the emitter goes on as that call left it.
\<close>

datatype bridge_call =
    OnScreenCapture jsval
  | OnPatternDetected jsval
  | RemoveAllListeners string

fun bridge_step :: "bridge_call \<Rightarrow> emitter \<Rightarrow> emitter" where
  "bridge_step (OnScreenCapture callback) ipcRenderer = snd (onScreenCapture callback ipcRenderer)"
| "bridge_step (OnPatternDetected callback) ipcRenderer = snd (onPatternDetected callback ipcRenderer)"
| "bridge_step (RemoveAllListeners channel) ipcRenderer = removeAllListeners channel ipcRenderer"

definition bridge_session :: "bridge_call list \<Rightarrow> emitter \<Rightarrow> emitter" where
  "bridge_session calls ipcRenderer = fold bridge_step calls ipcRenderer"

text \<open>An emitter on which nothing has been registered yet.\<close>

definition no_listeners :: emitter where
  "no_listeners = (\<lambda>channel. [])"

section \<open>The main process: \<open>src/electron/main.js\<close>\<close>

subsection \<open>The \<open>get-screen-info\<close> handler\<close>

text \<open>
  Electron's \<open>screen\<close> module is not code of this program. It knows the displays of the
  desktop and which of them is the primary one, and hands a display out as a
  JavaScript object that it builds anew at every call, from the native display: two
  calls never return the same object, even for the same display. An object has an
  identity and properties; the handler compares displays with \<open>===\<close>, which on objects
  is identity. So the module is a state (the displays, the primary one among them, the
  next free identity) and each call returns its objects with the state that follows.
\<close>

record display =
  ident :: nat
  props :: jsprops

record screen =
  native_displays :: "jsprops list"
  native_primary :: jsprops
  next_ident :: nat

definition getAllDisplays :: "screen \<Rightarrow> display list \<times> screen" where
  "getAllDisplays scr =
     (map (\<lambda>(n, ps). \<lparr>ident = n, props = ps\<rparr>)
        (zip [next_ident scr ..< next_ident scr + length (native_displays scr)]
             (native_displays scr)),
      scr\<lparr>next_ident := next_ident scr + length (native_displays scr)\<rparr>)"

definition getPrimaryDisplay :: "screen \<Rightarrow> display \<times> screen" where
  "getPrimaryDisplay scr =
     (\<lparr>ident = next_ident scr, props = native_primary scr\<rparr>,
      scr\<lparr>next_ident := Suc (next_ident scr)\<rparr>)"

definition strict_equal :: "display \<Rightarrow> display \<Rightarrow> bool" where
  "strict_equal a b = (ident a = ident b)"

text \<open>
  \<^verbatim>\<open>
  ipcMain.handle('get-screen-info', () => {
    const displays = screen.getAllDisplays();
    return displays.map(display => ({
      id: display.id,
      bounds: display.bounds,
      workArea: display.workArea,
      scaleFactor: display.scaleFactor,
      primary: display === screen.getPrimaryDisplay()
    }));
  });
  \<close>
  The callback of \<open>map\<close> calls \<open>screen.getPrimaryDisplay()\<close> once for every display, so
  the state of the module is threaded through the elements.
\<close>

definition screen_info_of :: "display \<Rightarrow> screen \<Rightarrow> jsprops \<times> screen" where
  "screen_info_of display scr =
     (let (primary, scr') = getPrimaryDisplay scr
      in ([(''id'', get_prop (props display) ''id''),
           (''bounds'', get_prop (props display) ''bounds''),
           (''workArea'', get_prop (props display) ''workArea''),
           (''scaleFactor'', get_prop (props display) ''scaleFactor''),
           (''primary'', JBool (strict_equal display primary))],
          scr'))"

fun map_displays :: "display list \<Rightarrow> screen \<Rightarrow> jsprops list \<times> screen" where
  "map_displays [] scr = ([], scr)"
| "map_displays (display # displays) scr =
     (let (info, scr') = screen_info_of display scr;
          (infos, scr'') = map_displays displays scr'
      in (info # infos, scr''))"

definition get_screen_info :: "screen \<Rightarrow> jsprops list \<times> screen" where
  "get_screen_info scr =
     (let (displays, scr') = getAllDisplays scr in map_displays displays scr')"

subsection \<open>The \<open>capture-screen-region\<close> handler\<close>

text \<open>
  \<^verbatim>\<open>
  ipcMain.handle('capture-screen-region', async (event, region) => {
    // This would implement screen capture functionality
    // For now, return a placeholder
    return {
      success: true,
      region: region,
      timestamp: Date.now()
    };
  });
  \<close>
  The handler is asynchronous: its promise resolves with a value (\<open>Inr\<close>) or rejects
  with an error (\<open>Inl\<close>). The reading of the clock, \<open>Date.now()\<close>, is an argument.
\<close>

definition capture_screen_region :: "int \<Rightarrow> jsval \<Rightarrow> js_error + jsprops" where
  "capture_screen_region Date_now region =
     Inr [(''success'', JBool True),
          (''region'', region),
          (''timestamp'', JNum (of_int Date_now))]"

text \<open>
  Region bounds are \<open>(x, y, width, height)\<close> in screen pixel coordinates, as are the
  bounds of a display. The spec's failure condition "region off-screen" reads, on these
  bounds: the region is not a rectangle at all, or it overlaps no display. The handler
  computes nothing of the kind; the predicate is here to state what the handler returns
  for such a region.
\<close>

fun num_of :: "jsval \<Rightarrow> rat option" where
  "num_of (JNum n) = Some n"
| "num_of _ = None"

fun rect_of :: "jsval \<Rightarrow> (rat \<times> rat \<times> rat \<times> rat) option" where
  "rect_of (JObj ps) =
     (case (num_of (get_prop ps ''x''), num_of (get_prop ps ''y''),
            num_of (get_prop ps ''width''), num_of (get_prop ps ''height'')) of
        (Some x, Some y, Some w, Some h) \<Rightarrow> Some (x, y, w, h)
      | _ \<Rightarrow> None)"
| "rect_of _ = None"

fun rects_overlap :: "rat \<times> rat \<times> rat \<times> rat \<Rightarrow> rat \<times> rat \<times> rat \<times> rat \<Rightarrow> bool" where
  "rects_overlap (x1, y1, w1, h1) (x2, y2, w2, h2) =
     (x1 < x2 + w2 \<and> x2 < x1 + w1 \<and> y1 < y2 + h2 \<and> y2 < y1 + h1)"

definition overlaps_display :: "rat \<times> rat \<times> rat \<times> rat \<Rightarrow> jsprops \<Rightarrow> bool" where
  "overlaps_display r d =
     (case rect_of (get_prop d ''bounds'') of
        None \<Rightarrow> False
      | Some b \<Rightarrow> rects_overlap r b)"

definition region_off_screen :: "screen \<Rightarrow> jsval \<Rightarrow> bool" where
  "region_off_screen scr region =
     (case rect_of region of
        None \<Rightarrow> True
      | Some r \<Rightarrow> filter (overlaps_display r) (native_displays scr) = [])"

subsection \<open>The \<open>will-navigate\<close> guard\<close>

text \<open>
  \<^verbatim>\<open>
  app.on('web-contents-created', (event, contents) => {
    contents.on('will-navigate', (event, navigationUrl) => {
      const parsedUrl = new URL(navigationUrl);
      if (parsedUrl.origin !== 'http://localhost:3000' && !navigationUrl.startsWith('file://')) {
        event.preventDefault();
      }
    });
  });
  \<close>
  The URL parser is the platform's: \<open>new URL(s)\<close> either yields a parsed URL, of which
  the handler reads the origin, or throws a \<open>TypeError\<close>. It is a parameter of the
  model. An event carries the flag that \<open>preventDefault()\<close> sets; a navigation goes
  ahead when its event comes back from the listeners with the flag unset.
\<close>

record URL =
  origin :: string

type_synonym url_parser = "string \<Rightarrow> js_error + URL"

record event =
  defaultPrevented :: bool

definition preventDefault :: "event \<Rightarrow> event" where
  "preventDefault ev = ev\<lparr>defaultPrevented := True\<rparr>"

definition startsWith :: "string \<Rightarrow> string \<Rightarrow> bool" where
  "startsWith s searchString = (take (length searchString) s = searchString)"

definition will_navigate :: "url_parser \<Rightarrow> event \<Rightarrow> string \<Rightarrow> js_error + event" where
  "will_navigate new_URL ev navigationUrl =
     (case new_URL navigationUrl of
        Inl e \<Rightarrow> Inl e
      | Inr parsedUrl \<Rightarrow>
          if origin parsedUrl \<noteq> ''http://localhost:3000'' \<and> \<not> startsWith navigationUrl ''file://''
          then Inr (preventDefault ev)
          else Inr ev)"

text \<open>
  A web contents keeps its \<open>will-navigate\<close> listeners. The \<open>web-contents-created\<close>
  callback of the application registers the guard on the contents it is given; this is
  the only place where the application registers a listener on a contents. Raising the
  event runs the listeners in order on a fresh event, and stops at the first that throws.
\<close>

record contents =
  will_navigate_listeners :: "(event \<Rightarrow> string \<Rightarrow> js_error + event) list"

definition new_contents :: contents where
  "new_contents = \<lparr>will_navigate_listeners = []\<rparr>"

definition web_contents_created :: "url_parser \<Rightarrow> contents \<Rightarrow> contents" where
  "web_contents_created new_URL c =
     c\<lparr>will_navigate_listeners := will_navigate_listeners c @ [will_navigate new_URL]\<rparr>"

fun run_listeners ::
  "(event \<Rightarrow> string \<Rightarrow> js_error + event) list \<Rightarrow> event \<Rightarrow> string \<Rightarrow> js_error + event" where
  "run_listeners [] ev url = Inr ev"
| "run_listeners (l # ls) ev url =
     (case l ev url of Inl e \<Rightarrow> Inl e | Inr ev' \<Rightarrow> run_listeners ls ev' url)"

definition emit_will_navigate :: "contents \<Rightarrow> string \<Rightarrow> js_error + event" where
  "emit_will_navigate c navigationUrl =
     run_listeners (will_navigate_listeners c) \<lparr>defaultPrevented = False\<rparr> navigationUrl"

text \<open>The navigation is prevented when the event comes back with the flag set.\<close>

definition navigation_prevented :: "contents \<Rightarrow> string \<Rightarrow> bool" where
  "navigation_prevented c navigationUrl =
     (case emit_will_navigate c navigationUrl of
        Inl e \<Rightarrow> False
      | Inr ev \<Rightarrow> defaultPrevented ev)"

section \<open>The environment template: \<open>.env.example\<close>\<close>


definition parse_env_line :: "string \<Rightarrow> (string \<times> string) option" where
  "parse_env_line l =
     (if l = [] \<or> hd l = CHR ''#'' \<or> CHR ''='' \<notin> set l then None
      else Some (takeWhile (\<lambda>c. c \<noteq> CHR ''='') l, tl (dropWhile (\<lambda>c. c \<noteq> CHR ''='') l)))"

definition parse_env :: "string list \<Rightarrow> (string \<times> string) list" where
  "parse_env ls = List.map_filter parse_env_line ls"

definition env_get :: "string list \<Rightarrow> string \<Rightarrow> string option" where
  "env_get ls name = map_of (parse_env ls) name"

text \<open>
  A weight is written as a plain decimal numeral: digits, with at most one point among
  them. Its value is read exactly, as a rational: the claim about the sum of the two
  defaults is a claim about the numerals of the file.
\<close>

definition digit_of :: "char \<Rightarrow> nat option" where
  "digit_of c =
     (if of_char (CHR ''0'') \<le> (of_char c :: nat) \<and> (of_char c :: nat) \<le> of_char (CHR ''9'')
      then Some (of_char c - of_char (CHR ''0'')) else None)"

fun digits_value :: "nat \<Rightarrow> string \<Rightarrow> nat option" where
  "digits_value acc [] = Some acc"
| "digits_value acc (c # cs) =
     (case digit_of c of None \<Rightarrow> None | Some d \<Rightarrow> digits_value (10 * acc + d) cs)"

definition parse_decimal :: "string \<Rightarrow> rat option" where
  "parse_decimal s =
     (let ip = takeWhile (\<lambda>c. c \<noteq> CHR ''.'') s;
          fp = drop (Suc (length ip)) s
      in if ip = [] \<and> fp = [] then None
         else case (digits_value 0 ip, digits_value 0 fp) of
                (Some i, Some f) \<Rightarrow> Some (of_nat i + of_nat f / 10 ^ length fp)
              | _ \<Rightarrow> None)"

definition env_weight :: "string list \<Rightarrow> string \<Rightarrow> rat option" where
  "env_weight ls name = (case env_get ls name of None \<Rightarrow> None | Some v \<Rightarrow> parse_decimal v)"


section \<open>The capture loop and the dispatcher, from the specification\<close>

subsection \<open>Region capture loop\<close>












subsection \<open>Dispatcher\<close>

text \<open>
  Modelled from the spec: the state of the Dispatcher, whose code
  (\<open>src/core/application.py\<close>, \<open>src/api/websocket_server.py\<close>) is not part of the
  sources verified here. Sections 4.7 and 5 of the specification: the dispatcher knows
  the cycles in flight, by (symbol, region) key, and the results published. The cycles
  in flight are kept as a list, one entry per admitted tick, so that "at most one per
  key" is a property to prove and not one of the type. The model also keeps the ticks
  it dropped.
\<close>

record ('k, 'r) dispatcher =
  in_flight :: "'k list"
  published :: "('k \<times> 'r) list"
  dropped :: "'k list"

datatype ('k, 'r) dispatch_event =
    CaptureTick 'k
  | CycleCompleted 'k 'r
  | CycleAborted 'k

text \<open>
  Modelled from the spec: what the dispatcher does on an event (sections 4.7, 5 and 7).
  A capture tick for a key starts an analysis cycle unless a cycle for that key is still
  in flight, in which case the tick is dropped, not queued. A cycle that completes
  publishes its one result (an AnalysisResult, which names its symbol and region) and
  is no longer in flight; the completion of a cycle that is not in flight publishes
  nothing. A cycle that fails is aborted and publishes nothing.
\<close>

fun dispatch :: "('k, 'r) dispatch_event \<Rightarrow> ('k, 'r) dispatcher \<Rightarrow> ('k, 'r) dispatcher" where
  "dispatch (CaptureTick k) d =
     (if k \<in> set (in_flight d) then d\<lparr>dropped := dropped d @ [k]\<rparr>
      else d\<lparr>in_flight := in_flight d @ [k]\<rparr>)"
| "dispatch (CycleCompleted k r) d =
     (if k \<in> set (in_flight d)
      then d\<lparr>in_flight := remove1 k (in_flight d), published := published d @ [(k, r)]\<rparr>
      else d)"
| "dispatch (CycleAborted k) d = d\<lparr>in_flight := remove1 k (in_flight d)\<rparr>"

text \<open>
  Modelled from the spec: the dispatcher over time, and as it is started.
\<close>

definition dispatch_all :: "('k, 'r) dispatch_event list \<Rightarrow> ('k, 'r) dispatcher \<Rightarrow> ('k, 'r) dispatcher" where
  "dispatch_all evs d = fold dispatch evs d"

text \<open>The results published for a key, oldest first, and the events that end a cycle.\<close>

definition results_for :: "'k \<Rightarrow> ('k, 'r) dispatcher \<Rightarrow> 'r list" where
  "results_for k d = map snd (filter (\<lambda>p. fst p = k) (published d))"

fun ends_cycle :: "'k \<Rightarrow> ('k, 'r) dispatch_event \<Rightarrow> bool" where
  "ends_cycle k (CaptureTick k') = False"
| "ends_cycle k (CycleCompleted k' r) = (k' = k)"
| "ends_cycle k (CycleAborted k') = (k' = k)"

definition dispatcher_start :: "('k, 'r) dispatcher" where
  "dispatcher_start = \<lparr>in_flight = [], published = [], dropped = []\<rparr>"

section \<open>Concrete inputs\<close>

text \<open>
  A desktop of two displays side by side, the left one primary. A region inside the
  left display and a region beyond both. An emitter with two listeners on
  \<open>screen-capture\<close>. A stand-in for the URL parser that knows three addresses and
  rejects every other string; among the strings it rejects, \<open>not a url\<close> (no scheme)
  and \<open>http://localhost:3000.example.com/\<close> (no valid port) are rejected by the
  platform's parser as well.
\<close>

definition left_display :: jsprops where
  "left_display =
     [(''id'', JNum 2528732444),
      (''bounds'', JObj [(''x'', JNum 0), (''y'', JNum 0),
                         (''width'', JNum 1920), (''height'', JNum 1080)]),
      (''workArea'', JObj [(''x'', JNum 0), (''y'', JNum 25),
                           (''width'', JNum 1920), (''height'', JNum 1055)]),
      (''scaleFactor'', JNum (3 / 2)),
      (''rotation'', JNum 0)]"

definition right_display :: jsprops where
  "right_display =
     [(''id'', JNum 2528732445),
      (''bounds'', JObj [(''x'', JNum 1920), (''y'', JNum 0),
                         (''width'', JNum 1280), (''height'', JNum 1024)]),
      (''workArea'', JObj [(''x'', JNum 1920), (''y'', JNum 0),
                           (''width'', JNum 1280), (''height'', JNum 1024)]),
      (''scaleFactor'', JNum 1),
      (''rotation'', JNum 0)]"

definition example_screen :: screen where
  "example_screen =
     \<lparr>native_displays = [left_display, right_display],
      native_primary = left_display,
      next_ident = 1\<rparr>"

definition on_screen_region :: jsval where
  "on_screen_region =
     JObj [(''x'', JNum 100), (''y'', JNum 100), (''width'', JNum 800), (''height'', JNum 600)]"

definition off_screen_region :: jsval where
  "off_screen_region =
     JObj [(''x'', JNum 5000), (''y'', JNum 5000), (''width'', JNum 100), (''height'', JNum 100)]"

definition example_emitter :: emitter where
  "example_emitter = no_listeners(''screen-capture'' := [JFunction 7, JFunction 8])"

definition example_parser :: url_parser where
  "example_parser s =
     (if s = ''http://localhost:3000/dashboard'' then Inr \<lparr>origin = ''http://localhost:3000''\<rparr>
      else if s = ''file:///opt/app/build/index.html'' then Inr \<lparr>origin = ''null''\<rparr>
      else if s = ''https://example.com/login'' then Inr \<lparr>origin = ''https://example.com''\<rparr>
      else Inl TypeError)"

section \<open>Properties of the preload bridge\<close>

lemma removeAllListeners_app:
  "removeAllListeners c e c' = (if c' = c then [] else e c')"
  by (simp add: removeAllListeners_def)

lemma onScreenCapture_function:
  "is_function cb \<Longrightarrow>
   onScreenCapture cb e = (None, (removeAllListeners ''screen-capture'' e)(''screen-capture'' := [cb]))"
  by (simp add: onScreenCapture_def on_def removeAllListeners_def)

lemma onScreenCapture_throws:
  "\<not> is_function v \<Longrightarrow>
   onScreenCapture v e = (Some TypeError, removeAllListeners ''screen-capture'' e)"
  by (simp add: onScreenCapture_def on_def)

lemma onPatternDetected_function:
  "is_function cb \<Longrightarrow>
   onPatternDetected cb e =
     (None, (removeAllListeners ''pattern-detected'' e)(''pattern-detected'' := [cb]))"
  by (simp add: onPatternDetected_def on_def removeAllListeners_def)

lemma onPatternDetected_throws:
  "\<not> is_function v \<Longrightarrow>
   onPatternDetected v e = (Some TypeError, removeAllListeners ''pattern-detected'' e)"
  by (simp add: onPatternDetected_def on_def)

lemma onScreenCapture_app:
  "snd (onScreenCapture v e) c =
     (if c = ''screen-capture'' then (if is_function v then [v] else []) else e c)"
  by (cases "is_function v")
    (simp_all add: onScreenCapture_function onScreenCapture_throws removeAllListeners_app)

lemma onPatternDetected_app:
  "snd (onPatternDetected v e) c =
     (if c = ''pattern-detected'' then (if is_function v then [v] else []) else e c)"
  by (cases "is_function v")
    (simp_all add: onPatternDetected_function onPatternDetected_throws removeAllListeners_app)

lemma bridge_step_bounded:
  assumes "length (e c) \<le> Suc 0"
  shows "length (bridge_step call e c) \<le> Suc 0"
  using assms
  by (cases call) (simp_all add: onScreenCapture_app onPatternDetected_app removeAllListeners_app)

lemma bridge_session_bounded:
  assumes "length (e c) \<le> Suc 0"
  shows "length (bridge_session calls e c) \<le> Suc 0"
  using assms unfolding bridge_session_def
proof (induction calls arbitrary: e)
  case Nil
  then show ?case by simp
next
  case (Cons call calls)
  have "length (bridge_step call e c) \<le> Suc 0"
    using Cons.prems by (rule bridge_step_bounded)
  then show ?case
    using Cons.IH by simp
qed

lemma bridge_session_snoc:
  "bridge_session (calls @ [call]) e = bridge_step call (bridge_session calls e)"
  by (simp add: bridge_session_def)

text \<open>
  Claim C9, as the bridge has it. After a call of \<open>onScreenCapture\<close> with a function
  as callback, the call has not thrown and the channel \<open>screen-capture\<close> has exactly one
  listener, the callback just given, whatever was registered before; the same holds of
  \<open>onPatternDetected\<close> and the channel \<open>pattern-detected\<close>, and at the end of any session
  of bridge calls that ends with such a registration. Whatever value is passed,
  listeners never pile up: a call leaves at most one listener on its channel, and on an
  emitter that starts without listeners no session of bridge calls leaves more than one
  listener on either channel. A call with a value that is not a function throws a
  \<open>TypeError\<close> and leaves its channel without any listener.
\<close>

theorem bridge_registers_exactly_one_listener:
  assumes "is_function cb"
  shows "fst (onScreenCapture cb e) = None
   \<and> listenerCount (snd (onScreenCapture cb e)) ''screen-capture'' = 1
   \<and> snd (onScreenCapture cb e) ''screen-capture'' = [cb]
   \<and> fst (onPatternDetected cb e) = None
   \<and> listenerCount (snd (onPatternDetected cb e)) ''pattern-detected'' = 1
   \<and> snd (onPatternDetected cb e) ''pattern-detected'' = [cb]
   \<and> bridge_session (calls @ [OnScreenCapture cb]) e ''screen-capture'' = [cb]
   \<and> bridge_session (calls @ [OnPatternDetected cb]) e ''pattern-detected'' = [cb]
   \<and> listenerCount (snd (onScreenCapture v e)) ''screen-capture'' \<le> 1
   \<and> listenerCount (snd (onPatternDetected v e)) ''pattern-detected'' \<le> 1
   \<and> listenerCount (bridge_session calls no_listeners) ''screen-capture'' \<le> 1
   \<and> listenerCount (bridge_session calls no_listeners) ''pattern-detected'' \<le> 1
   \<and> (\<not> is_function v \<longrightarrow>
        fst (onScreenCapture v e) = Some TypeError
        \<and> snd (onScreenCapture v e) ''screen-capture'' = []
        \<and> fst (onPatternDetected v e) = Some TypeError
        \<and> snd (onPatternDetected v e) ''pattern-detected'' = [])"
proof -
  have bounded: "length (bridge_session calls no_listeners c) \<le> Suc 0" for c :: string
    by (rule bridge_session_bounded) (simp add: no_listeners_def)
  have thrown: "\<not> is_function v \<longrightarrow>
        fst (onScreenCapture v e) = Some TypeError
        \<and> fst (onPatternDetected v e) = Some TypeError"
    by (simp add: onScreenCapture_throws onPatternDetected_throws)
  have returned: "fst (onScreenCapture cb e) = None \<and> fst (onPatternDetected cb e) = None"
    using assms by (simp add: onScreenCapture_function onPatternDetected_function)
  show ?thesis
    using assms thrown returned
      bounded [of "''screen-capture''"] bounded [of "''pattern-detected''"]
    by (simp add: listenerCount_def onScreenCapture_app onPatternDetected_app
        bridge_session_snoc)
qed

theorem bridge_registers_exactly_one_listener_witness:
  "is_function (JFunction 3)
   \<and> \<not> is_function JUndefined
   \<and> fst (onScreenCapture (JFunction 3) example_emitter) = None
   \<and> snd (onScreenCapture (JFunction 3) example_emitter) ''screen-capture'' = [JFunction 3]
   \<and> bridge_session
       ([OnScreenCapture (JFunction 1), OnPatternDetected (JFunction 5), OnScreenCapture JNull]
        @ [OnScreenCapture (JFunction 3)])
       example_emitter ''screen-capture'' = [JFunction 3]
   \<and> fst (onPatternDetected JUndefined example_emitter) = Some TypeError"
proof -
  have h: "is_function (JFunction 3)" by simp
  have n: "\<not> is_function JUndefined" by simp
  show ?thesis
    using h n
      bridge_registers_exactly_one_listener
        [OF h, of example_emitter
          "[OnScreenCapture (JFunction 1), OnPatternDetected (JFunction 5), OnScreenCapture JNull]"
          JUndefined]
    by simp
qed

text \<open>
  Claim C9 as stated fails: on an emitter with two listeners on \<open>screen-capture\<close>, the
  call \<open>onScreenCapture(undefined)\<close> throws and leaves the channel with no listener.
\<close>

theorem bridge_non_function_callback_leaves_no_listener:
  "listenerCount example_emitter ''screen-capture'' = 2
   \<and> fst (onScreenCapture JUndefined example_emitter) = Some TypeError
   \<and> listenerCount (snd (onScreenCapture JUndefined example_emitter)) ''screen-capture'' = 0"
  by (simp add: listenerCount_def example_emitter_def no_listeners_def onScreenCapture_def
      on_def removeAllListeners_def)

section \<open>Properties of the main process\<close>

subsection \<open>Screen information\<close>

lemma getAllDisplays_length:
  "length (fst (getAllDisplays scr)) = length (native_displays scr)"
  by (simp add: getAllDisplays_def)

lemma getAllDisplays_nth:
  "i < length (native_displays scr) \<Longrightarrow>
   fst (getAllDisplays scr) ! i =
     \<lparr>ident = next_ident scr + i, props = native_displays scr ! i\<rparr>"
  by (simp add: getAllDisplays_def)

lemma getAllDisplays_state:
  "snd (getAllDisplays scr) =
     scr\<lparr>next_ident := next_ident scr + length (native_displays scr)\<rparr>"
  by (simp add: getAllDisplays_def)

lemma screen_info_of_eq:
  "screen_info_of display scr =
     ([(''id'', get_prop (props display) ''id''),
       (''bounds'', get_prop (props display) ''bounds''),
       (''workArea'', get_prop (props display) ''workArea''),
       (''scaleFactor'', get_prop (props display) ''scaleFactor''),
       (''primary'', JBool (ident display = next_ident scr))],
      scr\<lparr>next_ident := Suc (next_ident scr)\<rparr>)"
  by (simp add: screen_info_of_def getPrimaryDisplay_def strict_equal_def)

lemma map_displays_Cons:
  "fst (map_displays (display # displays) scr) =
     fst (screen_info_of display scr) #
     fst (map_displays displays (scr\<lparr>next_ident := Suc (next_ident scr)\<rparr>))"
  by (simp add: screen_info_of_eq split_beta)

lemma map_displays_length:
  "length (fst (map_displays displays scr)) = length displays"
proof (induction displays arbitrary: scr)
  case Nil
  then show ?case by simp
next
  case (Cons display displays)
  then show ?case by (simp only: map_displays_Cons length_Cons)
qed

lemma map_displays_nth:
  "i < length displays \<Longrightarrow>
   fst (map_displays displays scr) ! i =
     [(''id'', get_prop (props (displays ! i)) ''id''),
      (''bounds'', get_prop (props (displays ! i)) ''bounds''),
      (''workArea'', get_prop (props (displays ! i)) ''workArea''),
      (''scaleFactor'', get_prop (props (displays ! i)) ''scaleFactor''),
      (''primary'', JBool (ident (displays ! i) = next_ident scr + i))]"
proof (induction displays arbitrary: scr i)
  case Nil
  then show ?case by simp
next
  case (Cons display displays)
  show ?case
  proof (cases i)
    case 0
    then show ?thesis
      by (simp add: map_displays_Cons screen_info_of_eq del: map_displays.simps)
  next
    case (Suc j)
    with Cons.prems have "j < length displays" by simp
    from Cons.IH [OF this, of "scr\<lparr>next_ident := Suc (next_ident scr)\<rparr>"] Suc
    show ?thesis
      by (simp add: map_displays_Cons del: map_displays.simps)
  qed
qed

lemma getPrimaryDisplay_fresh:
  assumes "i < length (native_displays scr)"
  shows "\<not> strict_equal (fst (getAllDisplays scr) ! i)
           (fst (getPrimaryDisplay (snd (getAllDisplays scr))))"
  using assms
  by (simp add: strict_equal_def getAllDisplays_nth getAllDisplays_state getPrimaryDisplay_def)

text \<open>
  What the handler returns, for any desktop: one record per display, in the order of
  the displays, each with exactly the five fields, the first four copied from the
  display, and \<open>primary\<close> false in every record.
\<close>

lemma get_screen_info_records:
  assumes "i < length (native_displays scr)"
  shows "length (fst (get_screen_info scr)) = length (native_displays scr)
    \<and> field_names (fst (get_screen_info scr) ! i) =
        [''id'', ''bounds'', ''workArea'', ''scaleFactor'', ''primary'']
    \<and> get_prop (fst (get_screen_info scr) ! i) ''id'' = get_prop (native_displays scr ! i) ''id''
    \<and> get_prop (fst (get_screen_info scr) ! i) ''bounds'' =
        get_prop (native_displays scr ! i) ''bounds''
    \<and> get_prop (fst (get_screen_info scr) ! i) ''workArea'' =
        get_prop (native_displays scr ! i) ''workArea''
    \<and> get_prop (fst (get_screen_info scr) ! i) ''scaleFactor'' =
        get_prop (native_displays scr ! i) ''scaleFactor''
    \<and> get_prop (fst (get_screen_info scr) ! i) ''primary'' = JBool False"
proof -
  let ?ds = "fst (getAllDisplays scr)"
  let ?scr = "snd (getAllDisplays scr)"
  have gsi: "get_screen_info scr = map_displays ?ds ?scr"
    by (simp add: get_screen_info_def split: prod.splits)
  have i: "i < length ?ds"
    using assms by (simp add: getAllDisplays_length)
  have d: "?ds ! i = \<lparr>ident = next_ident scr + i, props = native_displays scr ! i\<rparr>"
    using assms by (rule getAllDisplays_nth)
  have n: "next_ident ?scr = next_ident scr + length (native_displays scr)"
    by (simp add: getAllDisplays_state)
  have ne: "next_ident scr + i \<noteq> next_ident ?scr + i"
    using assms n by auto
  show ?thesis
    using ne
    by (simp add: gsi map_displays_length getAllDisplays_length map_displays_nth [OF i] d
        field_names_def get_prop_def)
qed

text \<open>
  Claim C10, at the desktop of two displays. The left display is the primary one (the
  display that the module names as primary has its \<open>id\<close>), and the handler returns two
  records with exactly the five fields, the first being the record of the left display;
  but its \<open>primary\<close> is false, where the claim has it true: the handler compares the
  object of the display with the object of a later \<open>screen.getPrimaryDisplay()\<close> call,
  which is another object, although an object is strictly equal to itself.
\<close>

theorem get_screen_info_primary_display_not_flagged:
  "get_prop (native_displays example_screen ! 0) ''id'' =
     get_prop (native_primary example_screen) ''id''
   \<and> length (fst (get_screen_info example_screen)) = 2
   \<and> field_names (fst (get_screen_info example_screen) ! 0) =
       [''id'', ''bounds'', ''workArea'', ''scaleFactor'', ''primary'']
   \<and> get_prop (fst (get_screen_info example_screen) ! 0) ''id'' = JNum 2528732444
   \<and> get_prop (fst (get_screen_info example_screen) ! 0) ''primary'' = JBool False
   \<and> get_prop (fst (get_screen_info example_screen) ! 1) ''primary'' = JBool False
   \<and> strict_equal (fst (getAllDisplays example_screen) ! 0)
        (fst (getAllDisplays example_screen) ! 0)
   \<and> \<not> strict_equal (fst (getAllDisplays example_screen) ! 0)
        (fst (getPrimaryDisplay (snd (getAllDisplays example_screen))))"
proof -
  have i0: "0 < length (native_displays example_screen)"
    by (simp add: example_screen_def)
  have i1: "1 < length (native_displays example_screen)"
    by (simp add: example_screen_def)
  have eq: "\<not> strict_equal (fst (getAllDisplays example_screen) ! 0)
        (fst (getPrimaryDisplay (snd (getAllDisplays example_screen))))"
    using i0 by (rule getPrimaryDisplay_fresh)
  show ?thesis
    using eq get_screen_info_records [OF i0] get_screen_info_records [OF i1]
    by (simp add: strict_equal_def example_screen_def left_display_def get_prop_def)
qed

subsection \<open>Screen capture\<close>

text \<open>
  Claim C1, as the handler has it. For every region and at every time the call resolves:
  it never rejects, and the record it resolves with has \<open>success\<close> set to \<open>true\<close> and
  carries the region it was given. No failure condition is looked for.
\<close>

theorem capture_screen_region_always_succeeds:
  "\<exists>result. capture_screen_region Date_now region = Inr result
     \<and> get_prop result ''success'' = JBool True
     \<and> get_prop result ''region'' = region"
  by (simp add: capture_screen_region_def get_prop_def)

theorem capture_screen_region_always_succeeds_witness:
  "\<exists>result. capture_screen_region 1700000000000 JUndefined = Inr result
     \<and> get_prop result ''success'' = JBool True
     \<and> get_prop result ''region'' = JUndefined"
  using capture_screen_region_always_succeeds [of 1700000000000 JUndefined]
  by simp

text \<open>
  Claim C1 as stated fails: a region that lies beyond every display is a failure
  condition of the claim ("region off-screen"), and the call for it resolves with
  \<open>success: true\<close>.
\<close>

theorem capture_off_screen_region_succeeds:
  "region_off_screen example_screen off_screen_region
   \<and> capture_screen_region 1700000000000 off_screen_region =
       Inr [(''success'', JBool True), (''region'', off_screen_region),
            (''timestamp'', JNum 1700000000000)]"
  by (simp add: region_off_screen_def example_screen_def left_display_def right_display_def
      off_screen_region_def capture_screen_region_def overlaps_display_def get_prop_def)

text \<open>
  Claim C6, as the handler has it. The record a capture resolves with has exactly the
  three fields \<open>success\<close>, \<open>region\<close> and \<open>timestamp\<close>: \<open>success\<close> is \<open>true\<close>, \<open>region\<close> is
  the region passed in (the whole value, not an id), \<open>timestamp\<close> is the reading of the
  clock. The handler adds no pixel buffer: the only field that can hold a buffer is
  \<open>region\<close>, when the caller passed one.
\<close>

theorem capture_screen_region_fields:
  assumes "capture_screen_region Date_now region = Inr result"
  shows "field_names result = [''success'', ''region'', ''timestamp'']
    \<and> get_prop result ''success'' = JBool True
    \<and> get_prop result ''region'' = region
    \<and> get_prop result ''timestamp'' = JNum (of_int Date_now)
    \<and> buffer_fields result = (if is_buffer region then [''region''] else [])"
  using assms
  by (auto simp: capture_screen_region_def field_names_def get_prop_def buffer_fields_def)

theorem capture_screen_region_fields_witness:
  "capture_screen_region 1700000000000 on_screen_region =
     Inr [(''success'', JBool True), (''region'', on_screen_region),
          (''timestamp'', JNum 1700000000000)]
   \<and> field_names [(''success'', JBool True), (''region'', on_screen_region),
          (''timestamp'', JNum 1700000000000)] = [''success'', ''region'', ''timestamp'']
   \<and> buffer_fields [(''success'', JBool True), (''region'', on_screen_region),
          (''timestamp'', JNum 1700000000000)] = []"
proof -
  have h: "capture_screen_region 1700000000000 on_screen_region =
     Inr [(''success'', JBool True), (''region'', on_screen_region),
          (''timestamp'', JNum 1700000000000)]"
    by (simp add: capture_screen_region_def)
  show ?thesis
    using h capture_screen_region_fields [OF h]
    by (simp add: on_screen_region_def)
qed

text \<open>
  Claim C6 as stated fails: the capture of a region that is on screen succeeds, and the
  record it yields has no field that holds a pixel buffer.
\<close>

theorem capture_result_has_no_pixel_buffer:
  "\<not> region_off_screen example_screen on_screen_region
   \<and> capture_screen_region 1700000000000 on_screen_region =
       Inr [(''success'', JBool True), (''region'', on_screen_region),
            (''timestamp'', JNum 1700000000000)]
   \<and> buffer_fields [(''success'', JBool True), (''region'', on_screen_region),
            (''timestamp'', JNum 1700000000000)] = []"
  by (simp add: region_off_screen_def example_screen_def left_display_def right_display_def
      on_screen_region_def capture_screen_region_def overlaps_display_def get_prop_def
      buffer_fields_def)

subsection \<open>Navigation guard\<close>

lemma emit_will_navigate_created:
  "emit_will_navigate (web_contents_created new_URL new_contents) url =
     will_navigate new_URL \<lparr>defaultPrevented = False\<rparr> url"
  by (simp add: emit_will_navigate_def web_contents_created_def new_contents_def
      split: sum.splits)




lemma will_navigate_examples:
  "\<not> navigation_prevented (web_contents_created example_parser new_contents)
        ''http://localhost:3000/dashboard''
   \<and> \<not> navigation_prevented (web_contents_created example_parser new_contents)
        ''file:///opt/app/build/index.html''
   \<and> navigation_prevented (web_contents_created example_parser new_contents)
        ''https://example.com/login''
   \<and> emit_will_navigate (web_contents_created example_parser new_contents)
        ''http://localhost:3000.example.com/'' = Inl TypeError"
  by (simp add: navigation_prevented_def emit_will_navigate_created will_navigate_def
      preventDefault_def example_parser_def startsWith_def)

section \<open>Properties of the environment template\<close>






text \<open>The weight read follows the assignment: another environment gives another weight.\<close>

lemma env_weight_override:
  "env_weight (''TECHNICAL_WEIGHT=0.6'' # ls) ''TECHNICAL_WEIGHT'' = Some (3 / 5)"
  by (simp add: env_weight_def env_get_def parse_env_def parse_env_line_def
      parse_decimal_def digit_of_def)

section \<open>Properties of the capture loop\<close>










section \<open>Properties of the dispatcher\<close>

lemma dispatch_distinct:
  "distinct (in_flight d) \<Longrightarrow> distinct (in_flight (dispatch ev d))"
  by (cases ev) (simp_all add: distinct_remove1)

lemma dispatch_all_distinct:
  "distinct (in_flight d) \<Longrightarrow> distinct (in_flight (dispatch_all evs d))"
  unfolding dispatch_all_def
  by (induction evs arbitrary: d) (simp_all add: dispatch_distinct)

lemma count_list_remove1_other:
  "k' \<noteq> k \<Longrightarrow> count_list (remove1 k' xs) k = count_list xs k"
  by (induction xs) auto

lemma count_list_append_one:
  "count_list (xs @ [x]) k = count_list xs k + (if x = k then 1 else 0)"
  by (induction xs) auto

lemma count_list_one_in_set:
  "count_list xs k = Suc 0 \<Longrightarrow> k \<in> set xs"
  by (metis count_list_0_iff One_nat_def zero_neq_one)

lemma dispatch_keeps_cycle:
  assumes "count_list (in_flight d) k = Suc 0" and "\<not> ends_cycle k ev"
  shows "count_list (in_flight (dispatch ev d)) k = Suc 0
     \<and> results_for k (dispatch ev d) = results_for k d"
proof (cases ev)
  case (CaptureTick k')
  show ?thesis
  proof (cases "k' = k")
    case True
    with assms(1) have "k' \<in> set (in_flight d)"
      by (simp add: count_list_one_in_set)
    with CaptureTick assms(1) show ?thesis
      by (simp add: results_for_def)
  next
    case False
    with CaptureTick assms(1) show ?thesis
      by (simp add: results_for_def count_list_append_one)
  qed
next
  case (CycleCompleted k' r)
  with assms(2) have "k' \<noteq> k" by simp
  with CycleCompleted assms(1) show ?thesis
    by (simp add: results_for_def count_list_remove1_other)
next
  case (CycleAborted k')
  with assms(2) have "k' \<noteq> k" by simp
  with CycleAborted assms(1) show ?thesis
    by (simp add: results_for_def count_list_remove1_other)
qed

lemma dispatch_all_keeps_cycle:
  assumes "count_list (in_flight d) k = Suc 0" and "filter (ends_cycle k) evs = []"
  shows "count_list (in_flight (dispatch_all evs d)) k = Suc 0
     \<and> results_for k (dispatch_all evs d) = results_for k d"
  using assms unfolding dispatch_all_def
proof (induction evs arbitrary: d)
  case Nil
  then show ?case by simp
next
  case (Cons ev evs)
  from Cons.prems(2) have ev: "\<not> ends_cycle k ev" and evs: "filter (ends_cycle k) evs = []"
    by (auto split: if_splits)
  from dispatch_keeps_cycle [OF Cons.prems(1) ev]
  have step: "count_list (in_flight (dispatch ev d)) k = Suc 0"
    and res: "results_for k (dispatch ev d) = results_for k d"
    by simp_all
  from Cons.IH [OF step evs] res show ?case by simp
qed

lemma dispatch_all_append:
  "dispatch_all (evs @ evs') d = dispatch_all evs' (dispatch_all evs d)"
  by (simp add: dispatch_all_def)

lemma dispatch_all_Cons:
  "dispatch_all (ev # evs) d = dispatch_all evs (dispatch ev d)"
  by (simp add: dispatch_all_def)

lemma count_list_not_in_set:
  "k \<notin> set xs \<Longrightarrow> count_list xs k = 0"
  by (simp add: count_list_0_iff)

lemma remove1_last_copy:
  "count_list xs k = Suc 0 \<Longrightarrow> k \<notin> set (remove1 k xs)"
proof (induction xs)
  case Nil
  then show ?case by simp
next
  case (Cons x xs)
  then show ?case
    by (cases "x = k") (auto simp: count_list_0_iff)
qed

text \<open>
  Claim C3. Whatever events the dispatcher has seen since its start, no key has two
  cycles in flight. When a capture tick for a key \<open>k\<close> with no cycle in flight is
  followed by any events that do not end the cycle of \<open>k\<close> (further ticks for \<open>k\<close>
  among them), exactly one cycle of \<open>k\<close> is in flight; a further tick for \<open>k\<close> is
  dropped and leaves the cycles in flight as they are; and when the cycle completes,
  exactly one result for \<open>k\<close> has been published since the first tick and nothing
  for \<open>k\<close> is left in flight: no second cycle was queued, and a second completion
  would find no cycle and publish nothing. Two ticks for one region within the
  processing time of one cycle are the case where the events in between are the one
  further tick.
\<close>

theorem dispatcher_one_cycle_in_flight:
  assumes "k \<notin> set (in_flight d)" and "filter (ends_cycle k) evs = []"
  shows "distinct (in_flight (dispatch_all evs0 dispatcher_start))
     \<and> count_list (in_flight (dispatch_all (CaptureTick k # evs) d)) k = 1
     \<and> in_flight (dispatch (CaptureTick k) (dispatch_all (CaptureTick k # evs) d)) =
         in_flight (dispatch_all (CaptureTick k # evs) d)
     \<and> results_for k (dispatch_all (CaptureTick k # evs @ [CycleCompleted k r]) d) =
         results_for k d @ [r]
     \<and> k \<notin> set (in_flight (dispatch_all (CaptureTick k # evs @ [CycleCompleted k r]) d))
     \<and> results_for k (dispatch (CycleCompleted k r')
           (dispatch_all (CaptureTick k # evs @ [CycleCompleted k r]) d)) =
         results_for k d @ [r]"
proof -
  let ?d1 = "dispatch (CaptureTick k) d"
  let ?d2 = "dispatch_all evs ?d1"
  have inv: "distinct (in_flight (dispatch_all evs0 (dispatcher_start :: ('c, 'd) dispatcher)))"
    by (rule dispatch_all_distinct) (simp add: dispatcher_start_def)
  have one: "count_list (in_flight ?d1) k = Suc 0"
    using assms(1) by (simp add: count_list_append_one count_list_not_in_set)
  have res1: "results_for k ?d1 = results_for k d"
    using assms(1) by (simp add: results_for_def)
  from dispatch_all_keeps_cycle [OF one assms(2)]
  have cnt: "count_list (in_flight ?d2) k = Suc 0"
    and res2: "results_for k ?d2 = results_for k d"
    using res1 by simp_all
  have mem: "k \<in> set (in_flight ?d2)"
    using cnt by (rule count_list_one_in_set)
  have dropped: "in_flight (dispatch (CaptureTick k) ?d2) = in_flight ?d2"
    using mem by simp
  have pub: "results_for k (dispatch (CycleCompleted k r) ?d2) = results_for k d @ [r]"
    using mem res2 by (simp add: results_for_def)
  have gone: "k \<notin> set (in_flight (dispatch (CycleCompleted k r) ?d2))"
    using mem remove1_last_copy [OF cnt] by simp
  have e1: "dispatch_all (CaptureTick k # evs) d = ?d2"
    by (simp only: dispatch_all_Cons)
  have e2: "dispatch_all (CaptureTick k # evs @ [CycleCompleted k r]) d =
      dispatch (CycleCompleted k r) ?d2"
    by (simp only: dispatch_all_def fold_Cons fold_append fold_Nil comp_apply id_apply)
  have again: "results_for k (dispatch (CycleCompleted k r')
      (dispatch (CycleCompleted k r) ?d2)) = results_for k d @ [r]"
    using gone pub by simp
  show ?thesis
    unfolding e1 e2 One_nat_def
    using inv cnt dropped pub gone again by blast
qed

theorem dispatcher_one_cycle_in_flight_witness:
  "(''AAPL'', 1::nat) \<notin> set (in_flight (dispatcher_start :: (string \<times> nat, nat) dispatcher))
   \<and> filter (ends_cycle (''AAPL'', 1::nat))
        [CaptureTick (''AAPL'', 1), CycleCompleted (''MSFT'', 2) (41::nat)] = []
   \<and> published (dispatch_all
        [CaptureTick (''AAPL'', 1::nat), CaptureTick (''AAPL'', 1), CycleCompleted (''AAPL'', 1) (42::nat)]
        dispatcher_start) = [((''AAPL'', 1), 42)]
   \<and> results_for (''AAPL'', 1::nat) (dispatch_all
        (CaptureTick (''AAPL'', 1) #
         [CaptureTick (''AAPL'', 1), CycleCompleted (''MSFT'', 2) (41::nat)] @
         [CycleCompleted (''AAPL'', 1) 42])
        dispatcher_start) = [42]"
proof -
  have h1: "(''AAPL'', 1::nat) \<notin> set (in_flight (dispatcher_start :: (string \<times> nat, nat) dispatcher))"
    by (simp add: dispatcher_start_def)
  have h2: "filter (ends_cycle (''AAPL'', 1::nat))
        [CaptureTick (''AAPL'', 1), CycleCompleted (''MSFT'', 2) (41::nat)] = []"
    by simp
  have r0: "results_for (''AAPL'', 1::nat) (dispatcher_start :: (string \<times> nat, nat) dispatcher) = []"
    by (simp add: results_for_def dispatcher_start_def)
  have p: "published (dispatch_all
        [CaptureTick (''AAPL'', 1::nat), CaptureTick (''AAPL'', 1), CycleCompleted (''AAPL'', 1) (42::nat)]
        dispatcher_start) = [((''AAPL'', 1), 42)]"
    by (simp add: dispatch_all_def dispatcher_start_def)
  show ?thesis
    using h1 h2 r0 p dispatcher_one_cycle_in_flight [OF h1 h2, of "[]" 42 43]
    by auto
qed

end
